theory Spec2Isabelle
  imports Main
begin

section \<open>The Fibonacci sequence generator of \<^verbatim>\<open>workspace/fibonacci.py\<close>\<close>

text \<open>
  The source function is
  \<^verbatim>\<open>
  def fibonacci(n):
      fib_list = []
      a, b = 0, 1
      while len(fib_list) < n:
          fib_list.append(a)
          a, b = b, a + b
      return fib_list
  \<close>
  Python integers are unbounded, so \<open>n\<close>, \<open>a\<close>, \<open>b\<close> and the elements of the list are
  of type \<open>int\<close>. The list is a HOL list and \<open>append\<close> adds at the end. The three local
  variables are the whole state of a call: the function reads no global and no argument
  other than \<open>n\<close>.
\<close>

subsection \<open>State of the loop\<close>

record loop_state =
  fib_list :: "int list"
  a :: int
  b :: int

text \<open>\<^verbatim>\<open>fib_list = []\<close> and \<^verbatim>\<open>a, b = 0, 1\<close>.\<close>

definition init_state :: loop_state where
  "init_state = \<lparr>fib_list = [], a = 0, b = 1\<rparr>"

text \<open>The loop test \<^verbatim>\<open>len(fib_list) < n\<close>.\<close>

definition loop_cond :: "int \<Rightarrow> loop_state \<Rightarrow> bool" where
  "loop_cond n s = (int (length (fib_list s)) < n)"

text \<open>
  The loop body \<^verbatim>\<open>fib_list.append(a); a, b = b, a + b\<close>. The tuple assignment
  evaluates its right-hand side with the old values of \<open>a\<close> and \<open>b\<close>.
\<close>

definition loop_body :: "loop_state \<Rightarrow> loop_state" where
  "loop_body s = \<lparr>fib_list = fib_list s @ [a s], a = b s, b = a s + b s\<rparr>"

subsection \<open>The loop and the function\<close>

text \<open>
  The \<^verbatim>\<open>while\<close> loop as a tail-recursive function on the state. The recursion is
  not structural; it is accepted with the measure \<open>n - len(fib_list)\<close>.
\<close>

function fib_loop :: "int \<Rightarrow> loop_state \<Rightarrow> loop_state" where
  "fib_loop n s = (if loop_cond n s then fib_loop n (loop_body s) else s)"
  by pat_completeness auto
termination
  by (relation "measure (\<lambda>(n, s). nat (n - int (length (fib_list s))))")
     (auto simp: loop_cond_def loop_body_def)

declare fib_loop.simps [simp del]

definition fibonacci :: "int \<Rightarrow> int list" where
  "fibonacci n = fib_list (fib_loop n init_state)"

subsection \<open>The loop as a big-step relation\<close>

text \<open>
  The same loop as an inductive relation between the state before and the state after:
  the loop is left when the test fails, and otherwise the body runs once and the loop
  goes on. A run that never ends has no final state in this relation.
\<close>

inductive loop_exec :: "int \<Rightarrow> loop_state \<Rightarrow> loop_state \<Rightarrow> bool" where
  loop_exit: "\<not> loop_cond n s \<Longrightarrow> loop_exec n s s"
| loop_iter: "loop_cond n s \<Longrightarrow> loop_exec n (loop_body s) t \<Longrightarrow> loop_exec n s t"

code_pred loop_exec .

text \<open>A call returns \<open>xs\<close> when the loop, started in the initial state, ends with
  \<open>fib_list = xs\<close>.\<close>

inductive fibonacci_returns :: "int \<Rightarrow> int list \<Rightarrow> bool" where
  call_returns: "loop_exec n init_state t \<Longrightarrow> fibonacci_returns n (fib_list t)"

code_pred fibonacci_returns .

subsection \<open>The reference Fibonacci numbers\<close>

text \<open>
  The convention of the specification: F(0) = 0, F(1) = 1, F(k) = F(k-1) + F(k-2).
\<close>

fun F :: "nat \<Rightarrow> int" where
  "F 0 = 0"
| "F (Suc 0) = 1"
| "F (Suc (Suc k)) = F (Suc k) + F k"

section \<open>Properties\<close>

subsection \<open>The loop invariant\<close>

text \<open>
  After \<open>k\<close> iterations the list holds F(0), ..., F(k-1) and the pair is (F(k), F(k+1)).
\<close>

definition fib_state :: "nat \<Rightarrow> loop_state" where
  "fib_state k = \<lparr>fib_list = map F [0..<k], a = F k, b = F (Suc k)\<rparr>"

lemma init_state_fib_state: "init_state = fib_state 0"
  by (simp add: init_state_def fib_state_def)

lemma loop_body_fib_state: "loop_body (fib_state k) = fib_state (Suc k)"
  by (simp add: loop_body_def fib_state_def)

lemma loop_cond_fib_state: "loop_cond n (fib_state k) \<longleftrightarrow> int k < n"
  by (simp add: loop_cond_def fib_state_def)

lemma fib_loop_fib_state: "fib_loop n (fib_state k) = fib_state (max k (nat n))"
proof (induction "nat n - k" arbitrary: k)
  case 0
  then have "\<not> int k < n" by linarith
  then have "fib_loop n (fib_state k) = fib_state k"
    by (subst fib_loop.simps) (simp add: loop_cond_fib_state)
  moreover from 0 have "max k (nat n) = k" by simp
  ultimately show ?case by simp
next
  case (Suc d)
  then have lt: "int k < n" by linarith
  from Suc have "d = nat n - Suc k" by simp
  then have "fib_loop n (fib_state (Suc k)) = fib_state (max (Suc k) (nat n))"
    by (rule Suc.hyps(1))
  moreover have "fib_loop n (fib_state k) = fib_loop n (fib_state (Suc k))"
    using lt by (subst fib_loop.simps) (simp add: loop_cond_fib_state loop_body_fib_state)
  moreover from lt have "max (Suc k) (nat n) = max k (nat n)" by linarith
  ultimately show ?case by simp
qed

lemma fibonacci_closed: "fibonacci n = map F [0..<nat n]"
proof -
  have "fib_loop n init_state = fib_state (nat n)"
    by (simp add: init_state_fib_state fib_loop_fib_state)
  then show ?thesis
    by (simp add: fibonacci_def fib_state_def)
qed

lemma length_fibonacci: "length (fibonacci n) = nat n"
  by (simp add: fibonacci_closed)

lemma nth_fibonacci: "k < nat n \<Longrightarrow> fibonacci n ! k = F k"
  by (simp add: fibonacci_closed)

subsection \<open>The reference numbers are non-negative and non-decreasing\<close>

lemma F_nonneg: "0 \<le> F k"
  by (induction k rule: F.induct) simp_all

lemma F_mono_Suc: "F k \<le> F (Suc k)"
  using F_nonneg [of "k - 1"] by (cases k) simp_all

subsection \<open>The function and the relation agree\<close>

text \<open>
  The loop function gives a final state of the relation for every start state, by
  computation induction on the loop; and the relation has at most one final state, by
  rule induction.
\<close>

lemma loop_exec_fib_loop: "loop_exec n s (fib_loop n s)"
proof (induction n s rule: fib_loop.induct)
  case (1 n s)
  show ?case
  proof (cases "loop_cond n s")
    case True
    with 1 have "loop_exec n (loop_body s) (fib_loop n (loop_body s))" by simp
    with True have "loop_exec n s (fib_loop n (loop_body s))" by (rule loop_iter)
    with True show ?thesis by (subst fib_loop.simps) simp
  next
    case False
    then have "loop_exec n s s" by (rule loop_exit)
    with False show ?thesis by (subst fib_loop.simps) simp
  qed
qed

lemma loop_exec_determ: "loop_exec n s t \<Longrightarrow> loop_exec n s u \<Longrightarrow> u = t"
proof (induction arbitrary: u rule: loop_exec.induct)
  case (loop_exit n s)
  from loop_exit.prems loop_exit.hyps show ?case
    by (cases rule: loop_exec.cases) simp_all
next
  case (loop_iter n s t)
  from loop_iter.prems loop_iter.hyps(1) have "loop_exec n (loop_body s) u"
    by (cases rule: loop_exec.cases) simp_all
  then show ?case by (rule loop_iter.IH)
qed

lemma fibonacci_returns_fibonacci: "fibonacci_returns n (fibonacci n)"
  unfolding fibonacci_def by (rule call_returns) (rule loop_exec_fib_loop)

lemma loop_body_length: "length (fib_list (loop_body s)) = Suc (length (fib_list s))"
  by (simp add: loop_body_def)

section \<open>The claims\<close>

text \<open>
  Claim C1. For every integer \<open>n \<ge> 0\<close> and every index \<open>i\<close> with \<open>0 \<le> i < n\<close>, the index
  is in range and the \<open>i\<close>-th element of \<open>fibonacci n\<close> is the \<open>i\<close>-th Fibonacci number
  under the convention F(0) = 0, F(1) = 1, F(k) = F(k-1) + F(k-2): the pair-update loop
  computes the reference definition.
\<close>

theorem fibonacci_nth_is_F:
  "0 \<le> n \<Longrightarrow> 0 \<le> i \<Longrightarrow> i < n \<Longrightarrow>
     nat i < length (fibonacci n) \<and> fibonacci n ! nat i = F (nat i)"
  by (simp add: length_fibonacci nth_fibonacci)

theorem fibonacci_nth_is_F_witness:
  "(0::int) \<le> 10 \<and> (0::int) \<le> 7 \<and> (7::int) < 10 \<and>
     nat 7 < length (fibonacci 10) \<and> fibonacci 10 ! nat 7 = F (nat 7) \<and> F (nat 7) = 13"
proof -
  have "F (nat 7) = 13" by code_simp
  then show ?thesis using fibonacci_nth_is_F [of 10 7] by simp
qed

text \<open>
  Claim C2. For every integer \<open>n \<le> 0\<close> the call returns the empty list: the function value
  is \<open>[]\<close>, and the run of the loop ends (with \<open>[]\<close>), so that nothing is signalled.
\<close>

theorem fibonacci_nonpositive_empty:
  "n \<le> 0 \<Longrightarrow> fibonacci n = [] \<and> fibonacci_returns n []"
  using fibonacci_returns_fibonacci [of n] by (simp add: fibonacci_closed)

theorem fibonacci_nonpositive_empty_witness:
  "(-3::int) \<le> 0 \<and> fibonacci (-3) = [] \<and> fibonacci_returns (-3) [] \<and>
   (0::int) \<le> 0 \<and> fibonacci 0 = [] \<and> fibonacci_returns 0 []"
  using fibonacci_nonpositive_empty [of "-3"] fibonacci_nonpositive_empty [of 0] by simp

text \<open>
  Claim C3. For every integer \<open>n \<ge> 1\<close> the returned list has length exactly \<open>n\<close>.
\<close>

theorem fibonacci_length:
  "1 \<le> n \<Longrightarrow> int (length (fibonacci n)) = n"
  by (simp add: length_fibonacci)

theorem fibonacci_length_witness:
  "(1::int) \<le> 4 \<and> int (length (fibonacci 4)) = 4"
  using fibonacci_length [of 4] by simp

text \<open>
  Claim C4. For every integer \<open>n \<ge> 2\<close> and every valid index \<open>i \<ge> 2\<close> of the result,
  \<open>result[i] = result[i-1] + result[i-2]\<close>.
\<close>

theorem fibonacci_recurrence:
  "2 \<le> n \<Longrightarrow> 2 \<le> i \<Longrightarrow> i < int (length (fibonacci n)) \<Longrightarrow>
     fibonacci n ! nat i = fibonacci n ! nat (i - 1) + fibonacci n ! nat (i - 2)"
proof -
  assume n: "2 \<le> n" and i: "2 \<le> i" and lt: "i < int (length (fibonacci n))"
  define k where "k = nat (i - 2)"
  from n lt have "i < n" by (simp add: length_fibonacci)
  with i have kn: "Suc (Suc k) < nat n" by (simp add: k_def)
  from i have k: "nat i = Suc (Suc k)" "nat (i - 1) = Suc k" "nat (i - 2) = k"
    by (simp_all add: k_def)
  from kn show ?thesis
    by (simp add: k nth_fibonacci)
qed

theorem fibonacci_recurrence_witness:
  "(2::int) \<le> 6 \<and> (2::int) \<le> 5 \<and> (5::int) < int (length (fibonacci 6)) \<and>
     fibonacci 6 ! nat 5 = fibonacci 6 ! nat (5 - 1) + fibonacci 6 ! nat (5 - 2) \<and>
     fibonacci 6 = [0, 1, 1, 2, 3, 5]"
proof -
  have v: "fibonacci 6 = [0, 1, 1, 2, 3, 5]" by code_simp
  have "(5::int) < int (length (fibonacci 6))" by (simp add: v)
  with v show ?thesis using fibonacci_recurrence [of 6 5] by simp
qed

text \<open>
  Claim C5. For every integer \<open>n\<close> the call terminates and returns: each iteration appends
  exactly one element, so the measure \<open>n - len(fib_list)\<close> strictly decreases whenever the
  loop test holds, and the run of the loop from the initial state has a final state, whose
  list is \<open>fibonacci n\<close>. The model has no failure branch because the source has none
  (no indexing, no division, no raise); lists and integers are unbounded as in Python.
\<close>

theorem fibonacci_terminates:
  "length (fib_list (loop_body s)) = length (fib_list s) + 1 \<and>
   (loop_cond n s \<longrightarrow>
      nat (n - int (length (fib_list (loop_body s)))) < nat (n - int (length (fib_list s)))) \<and>
   (\<exists>xs. fibonacci_returns n xs) \<and> fibonacci_returns n (fibonacci n)"
proof -
  have "fibonacci_returns n (fibonacci n)" by (rule fibonacci_returns_fibonacci)
  then show ?thesis
    by (auto simp: loop_body_length loop_cond_def)
qed

theorem fibonacci_terminates_witness:
  "loop_cond 3 init_state \<and>
   nat (3 - int (length (fib_list (loop_body init_state))))
     < nat (3 - int (length (fib_list init_state))) \<and>
   fibonacci_returns 3 (fibonacci 3) \<and> fibonacci 3 = [0, 1, 1]"
proof -
  have c: "loop_cond 3 init_state" by (simp add: loop_cond_def init_state_def)
  have v: "fibonacci 3 = [0, 1, 1]" by code_simp
  from c v show ?thesis using fibonacci_terminates [of init_state 3] by simp
qed

text \<open>
  Claim C6. The concrete sequences: \<open>fibonacci 1 = [0]\<close>, \<open>fibonacci 2 = [0, 1]\<close> and
  \<open>fibonacci 10 = [0, 1, 1, 2, 3, 5, 8, 13, 21, 34]\<close>, by running the loop.
\<close>

theorem fibonacci_examples:
  "fibonacci 1 = [0] \<and> fibonacci 2 = [0, 1] \<and>
   fibonacci 10 = [0, 1, 1, 2, 3, 5, 8, 13, 21, 34]"
  by code_simp

text \<open>
  Claim C7. The call is deterministic: two runs with the same argument \<open>n\<close> return the same
  list, and that list is the value \<open>fibonacci n\<close>, a function of \<open>n\<close> alone. The state of a
  run is made of the three locals only, which every call initialises itself.
\<close>

theorem fibonacci_deterministic:
  "fibonacci_returns n xs \<Longrightarrow> fibonacci_returns n ys \<Longrightarrow> xs = ys \<and> xs = fibonacci n"
proof -
  assume x: "fibonacci_returns n xs" and y: "fibonacci_returns n ys"
  have only: "zs = fibonacci n" if "fibonacci_returns n zs" for zs
    using that
  proof (cases rule: fibonacci_returns.cases)
    case (call_returns t)
    from call_returns(2) loop_exec_fib_loop [of n init_state] have "fib_loop n init_state = t"
      by (rule loop_exec_determ)
    with call_returns(1) show ?thesis by (simp add: fibonacci_def)
  qed
  from only [OF x] only [OF y] show ?thesis by simp
qed

theorem fibonacci_deterministic_witness:
  "fibonacci_returns 2 [0, 1] \<and> [0, 1] = fibonacci 2"
proof -
  have v: "fibonacci 2 = [0, 1]" by code_simp
  have r: "fibonacci_returns 2 [0, 1]"
    using fibonacci_returns_fibonacci [of 2] by (simp add: v)
  from fibonacci_deterministic [OF r r] r show ?thesis by simp
qed

text \<open>
  Claim C8. Prefix monotonicity: for all integers \<open>0 \<le> m \<le> n\<close>, the first \<open>m\<close> elements of
  \<open>fibonacci n\<close> (Python's \<^verbatim>\<open>fibonacci(n)[:m]\<close>) are \<open>fibonacci m\<close>.
\<close>

theorem fibonacci_prefix:
  "0 \<le> m \<Longrightarrow> m \<le> n \<Longrightarrow> take (nat m) (fibonacci n) = fibonacci m"
  by (simp add: fibonacci_closed take_map min_def)

theorem fibonacci_prefix_witness:
  "(0::int) \<le> 3 \<and> (3::int) \<le> 7 \<and> take (nat 3) (fibonacci 7) = fibonacci 3 \<and>
   fibonacci 3 = [0, 1, 1] \<and> fibonacci 7 = [0, 1, 1, 2, 3, 5, 8]"
proof -
  have "fibonacci 3 = [0, 1, 1]" "fibonacci 7 = [0, 1, 1, 2, 3, 5, 8]" by code_simp+
  then show ?thesis using fibonacci_prefix [of 3 7] by simp
qed

text \<open>
  Claim C9. For every integer \<open>n\<close>, every element of \<open>fibonacci n\<close> is non-negative, and
  the list is non-decreasing: for every index \<open>i\<close> with \<open>0 \<le> i < n - 1\<close>, the index \<open>i + 1\<close>
  is in range and \<open>fibonacci n ! i \<le> fibonacci n ! (i + 1)\<close>.
\<close>

theorem fibonacci_nonneg_nondecreasing:
  "(x \<in> set (fibonacci n) \<longrightarrow> 0 \<le> x) \<and>
   (0 \<le> i \<and> i < n - 1 \<longrightarrow>
      nat (i + 1) < length (fibonacci n) \<and> fibonacci n ! nat i \<le> fibonacci n ! nat (i + 1))"
proof (intro conjI impI)
  assume "x \<in> set (fibonacci n)"
  then show "0 \<le> x" by (auto simp: fibonacci_closed F_nonneg)
next
  assume i: "0 \<le> i \<and> i < n - 1"
  then show "nat (i + 1) < length (fibonacci n)" by (simp add: length_fibonacci)
next
  assume i: "0 \<le> i \<and> i < n - 1"
  then have s: "nat (i + 1) = Suc (nat i)" by linarith
  from i have lt: "Suc (nat i) < nat n" by linarith
  then have "nat i < nat n" by (rule Suc_lessD)
  then have "fibonacci n ! nat i = F (nat i)" by (rule nth_fibonacci)
  moreover from lt have "fibonacci n ! Suc (nat i) = F (Suc (nat i))" by (rule nth_fibonacci)
  ultimately show "fibonacci n ! nat i \<le> fibonacci n ! nat (i + 1)"
    by (simp add: s F_mono_Suc)
qed

theorem fibonacci_nonneg_nondecreasing_witness:
  "3 \<in> set (fibonacci 5) \<and> (0::int) \<le> 3 \<and> (0::int) \<le> 3 \<and> (3::int) < 5 - 1 \<and>
   nat (3 + 1) < length (fibonacci 5) \<and> fibonacci 5 ! nat 3 \<le> fibonacci 5 ! nat (3 + 1) \<and>
   fibonacci 5 = [0, 1, 1, 2, 3]"
proof -
  have v: "fibonacci 5 = [0, 1, 1, 2, 3]" by code_simp
  then have "3 \<in> set (fibonacci 5)" by simp
  with v show ?thesis using fibonacci_nonneg_nondecreasing [of 3 5 3] by simp
qed

end
